theory Spec2Isabelle
  imports
    Complex_Main
    "HOL-Library.Char_ord"
    "HOL-Library.List_Lexorder"
    "HOL-Library.Product_Lexorder"
    "HOL-Library.Multiset"
    "HOL-Library.Sublist"
    "HOL-Library.Word"
begin

section \<open>Data model\<close>

text \<open>
  A JavaScript \<open>Date\<close> is its time value: milliseconds since the epoch.
  A \<open>Buffer\<close> is a list of bytes. A JavaScript string is a \<open>string\<close>, each character
  one code unit; the code units below 256 are the ones the character type has.
\<close>

type_synonym date = int
type_synonym bytes = "8 word list"

text \<open>
  The \<open>ogImage\<close> field of a post is an optional path; the synthetic entry of the card
  endpoint sets it to the boolean \<open>false\<close>. The endpoint tests it with \<open>!data.ogImage\<close>,
  JavaScript's truthiness: \<open>undefined\<close>, \<open>false\<close> and the empty string are falsy.
\<close>

datatype og_image = OgUndefined | OgBool bool | OgString string

fun truthy :: "og_image \<Rightarrow> bool" where
  "truthy OgUndefined = False"
| "truthy (OgBool b) = b"
| "truthy (OgString s) = (s \<noteq> [])"

record post_data =
  title :: string
  description :: string
  publishDate :: date
  updatedDate :: "date option"
  tags :: "string list"
  draft :: bool
  ogImage :: og_image

record post =
  data :: post_data
  slug :: string

text \<open>Errors as values: the taxonomy of the specification, and the rejected page size.\<close>

datatype error =
    ContentValidationError string
  | RenderError string
  | NotFoundError string
  | InvalidPageSize int

section \<open>The social card endpoint (\<open>og-image/[slug].png\<close>)\<close>

subsection \<open>External collaborators\<close>

text \<open>
  The markup is the element tree that the \<open>html\<close> tag of \<open>satori-html\<close> builds from
  the template of lines 32--44: an element has a tag, its \<open>tw\<close> attribute (if it has
  one), its inline style and its children; a child is an element or a text.
\<close>

datatype vnode =
    Text string
  | Element string "string option" "(string \<times> string) list" "vnode list"

text \<open>
  What the \<open>html\<close> tag does with the template, as far as the tree shows it. An
  interpolated string is escaped: \<open>&\<close>, \<open><\<close> and \<open>>\<close> become entities, so it can only
  be text. Every text is trimmed (JavaScript's \<open>trim\<close>: of the code units below 256 the
  white space is tab, line feed, vertical tab, form feed, carriage return, space and
  no-break space), and a text that is empty after trimming makes no child, as the white
  space between the elements of the template. The tree is wrapped in a root \<open>div\<close> with
  a fixed style.
\<close>

definition escapeChar :: "char \<Rightarrow> string" where
  "escapeChar c =
     (if c = CHR ''&'' then ''&amp;''
      else if c = CHR ''<'' then ''&lt;''
      else if c = CHR ''>'' then ''&gt;''
      else [c])"

definition escapeHTML :: "string \<Rightarrow> string" where
  "escapeHTML s = concat (map escapeChar s)"

definition isWhiteSpace :: "char \<Rightarrow> bool" where
  "isWhiteSpace c =
     (c \<in> set [CHR 0x09, CHR 0x0A, CHR 0x0B, CHR 0x0C, CHR 0x0D, CHR 0x20, CHR 0xA0])"

definition trim :: "string \<Rightarrow> string" where
  "trim s = rev (dropWhile isWhiteSpace (rev (dropWhile isWhiteSpace s)))"

definition textChild :: "string \<Rightarrow> vnode list" where
  "textChild s = (let t = trim s in if t = [] then [] else [Text t])"

definition rootStyle :: "(string \<times> string) list" where
  "rootStyle =
     [(''display'', ''flex''), (''flexDirection'', ''column''),
      (''width'', ''100%''), (''height'', ''100%'')]"

record font =
  font_data :: bytes
  font_name :: string
  font_style :: string
  font_weight :: nat

record satori_options =
  fonts :: "font list"
  height :: nat
  width :: nat

record site_config =
  title :: string
  author :: string

text \<open>
  What the endpoint imports and does not define: the site configuration, the two embedded
  font files, \<open>getFormattedDate\<close> (called with the fixed options
  \<open>{month: "long", weekday: "long"}\<close>), the layout library \<open>satori\<close> and the rasteriser
  \<open>new Resvg(svg).render().asPng()\<close>. The two library calls may throw.
\<close>

record env =
  siteConfig :: site_config
  RobotoMono :: bytes
  RobotoMonoBold :: bytes
  getFormattedDate :: "date \<Rightarrow> string"
  satori :: "vnode \<Rightarrow> satori_options \<Rightarrow> error + string"
  renderAsPng :: "string \<Rightarrow> error + bytes"

subsection \<open>\<open>ogOptions\<close> and \<open>markup\<close>\<close>

definition ogOptions :: "env \<Rightarrow> satori_options" where
  "ogOptions e =
     \<lparr>fonts =
        [\<lparr>font_data = RobotoMono e, font_name = ''Roboto Mono'',
          font_style = ''normal'', font_weight = 400\<rparr>,
         \<lparr>font_data = RobotoMonoBold e, font_name = ''Roboto Mono'',
          font_style = ''normal'', font_weight = 700\<rparr>],
      height = 630,
      width = 1200\<rparr>"

definition markup :: "site_config \<Rightarrow> string \<Rightarrow> string \<Rightarrow> vnode" where
  "markup cfg ttl pubDateStr =
     Element ''div'' None rootStyle
       [Element ''div'' (Some ''flex flex-col w-full h-full bg-[#1d1f21] text-[#c9cacc]'') []
          [Element ''div'' (Some ''flex flex-col flex-1 w-full p-10 justify-center'') []
             [Element ''p'' (Some ''text-2xl mb-6'') [] (textChild (escapeHTML pubDateStr)),
              Element ''h1'' (Some ''text-7xl font-bold leading-snug text-white'') []
                (textChild (escapeHTML ttl))],
           Element ''div''
             (Some
               ''flex items-center justify-between w-full p-10 border-t border-[#2bbc89] text-xl'')
             []
             [Element ''div'' (Some ''flex items-center'') []
                [Element ''p'' (Some ''ml-3 font-semibold'') []
                   (textChild (escapeHTML (site_config.title cfg)))],
              Element ''p'' None []
                (textChild (''by '' @ escapeHTML (site_config.author cfg)))]]]"

subsection \<open>\<open>GET\<close>\<close>

record props =
  pubDate :: date
  skipDate :: bool
  title :: string

record response =
  body :: bytes
  headers :: "(string \<times> string) list"

text \<open>The local \<open>postDate\<close> of \<open>GET\<close> (lines 51--56).\<close>

definition postDate :: "env \<Rightarrow> props \<Rightarrow> string" where
  "postDate e p = (if skipDate p then [] else ''//'' @ getFormattedDate e (pubDate p))"

text \<open>The argument \<open>markup(title, postDate)\<close> that \<open>GET\<close> hands to \<open>satori\<close> (line 57).\<close>

definition cardMarkup :: "env \<Rightarrow> props \<Rightarrow> vnode" where
  "cardMarkup e p = markup (siteConfig e) (props.title p) (postDate e p)"

definition GET :: "env \<Rightarrow> props \<Rightarrow> error + response" where
  "GET e p =
     (case satori e (cardMarkup e p) (ogOptions e) of
        Inl err \<Rightarrow> Inl err
      | Inr svg \<Rightarrow>
          (case renderAsPng e svg of
             Inl err \<Rightarrow> Inl err
           | Inr png \<Rightarrow>
               Inr \<lparr>body = png,
                    headers =
                      [(''Cache-Control'', ''public, max-age=31536000, immutable''),
                       (''Content-Type'', ''image/png'')]\<rparr>))"

subsection \<open>Reading the card markup\<close>

fun subtrees :: "vnode \<Rightarrow> vnode list" where
  "subtrees (Text s) = [Text s]"
| "subtrees (Element t a st cs) = Element t a st cs # concat (map subtrees cs)"

fun isElement :: "string \<Rightarrow> string \<Rightarrow> vnode \<Rightarrow> bool" where
  "isElement t a (Text s) = False"
| "isElement t a (Element t' a' st cs) = (t' = t \<and> a' = Some a)"

text \<open>The date line is the paragraph of line 35, the title region the heading of line 36.\<close>

definition dateElements :: "vnode \<Rightarrow> vnode list" where
  "dateElements v = filter (isElement ''p'' ''text-2xl mb-6'') (subtrees v)"

definition titleElements :: "vnode \<Rightarrow> vnode list" where
  "titleElements v =
     filter (isElement ''h1'' ''text-7xl font-bold leading-snug text-white'') (subtrees v)"

subsection \<open>\<open>getStaticPaths\<close> of the card endpoint\<close>

record static_path =
  params_slug :: string
  props :: props

text \<open>
  \<open>new Date(2020, 1, 1)\<close> is local midnight of 1 February 2020: the UTC time value plus
  the time zone offset (\<open>getTimezoneOffset\<close>, in minutes).
\<close>

definition date_2020_1_1 :: "int \<Rightarrow> date" where
  "date_2020_1_1 tzOffset = 1580515200000 + tzOffset * 60000"

text \<open>
  The synthetic entry of lines 71--80. \<open>now\<close> is the clock reading of \<open>new Date()\<close>.
  The literal sets no description, tags or draft flag (and an \<open>includeDate\<close> that nothing
  reads); the fields it leaves out are empty here.
\<close>

definition indexEntry :: "date \<Rightarrow> int \<Rightarrow> post" where
  "indexEntry now tzOffset =
     \<lparr>data =
        \<lparr>post_data.title = ''LLMs, RAGs, Agents and Applied AI'',
         description = [],
         publishDate = date_2020_1_1 tzOffset,
         updatedDate = Some now,
         tags = [],
         draft = False,
         ogImage = OgBool False\<rparr>,
      slug = ''index''\<rparr>"

text \<open>The \<open>map\<close> callback of lines 83--90.\<close>

definition toPath :: "post \<Rightarrow> static_path" where
  "toPath p =
     \<lparr>params_slug = slug p,
      props =
        \<lparr>pubDate = (case updatedDate (data p) of Some d \<Rightarrow> d | None \<Rightarrow> publishDate (data p)),
         skipDate = (\<not> prefix ''/content'' (slug p)),
         title = post_data.title (data p)\<rparr>\<rparr>"

text \<open>\<open>posts\<close> is the result of \<open>await getAllPosts()\<close>.\<close>

definition getStaticPaths :: "post list \<Rightarrow> date \<Rightarrow> int \<Rightarrow> static_path list" where
  "getStaticPaths posts now tzOffset =
     map toPath (filter (\<lambda>p. \<not> truthy (ogImage (data p))) (posts @ [indexEntry now tzOffset]))"

text \<open>
  Modelled from the spec: the routing of the card endpoint, which the framework does and
  the sources do not contain. The endpoint is addressable by slug; an absent slug is a
  not-found response, an enumerated one is served by \<open>GET\<close> with the entry's props.
\<close>

definition requestCard :: "env \<Rightarrow> static_path list \<Rightarrow> string \<Rightarrow> error + response" where
  "requestCard e paths s =
     (case find (\<lambda>sp. params_slug sp = s) paths of
        None \<Rightarrow> Inl (NotFoundError s)
      | Some sp \<Rightarrow> GET e (props sp))"

text \<open>
  A sample environment and a sample post for the closed instances below; the site
  configuration, the date formatter and the two libraries are not part of the sources.
\<close>

definition sampleEnv :: env where
  "sampleEnv =
     \<lparr>siteConfig = \<lparr>site_config.title = ''rwilinski.ai'', author = ''Rafal Wilinski''\<rparr>,
      RobotoMono = [],
      RobotoMonoBold = [],
      getFormattedDate = (\<lambda>d. ''Monday, January 1, 2024''),
      satori = (\<lambda>v opts. Inr ''<svg/>''),
      renderAsPng = (\<lambda>svg. Inr [137, 80, 78, 71])\<rparr>"

definition samplePost :: "string \<Rightarrow> date \<Rightarrow> og_image \<Rightarrow> post" where
  "samplePost s d img =
     \<lparr>data = \<lparr>post_data.title = ''Hello World'', description = [], publishDate = d,
              updatedDate = None, tags = [], draft = False, ogImage = img\<rparr>,
      slug = s\<rparr>"

section \<open>The listing pipeline (\<open>posts/[...page]\<close>)\<close>

subsection \<open>The content store\<close>

text \<open>
  Modelled from the spec: a document of the content store, as its front matter gives it,
  which the loader (missing from the sources) reads. The publish date is absent, a string
  that is no date, or a date.
\<close>

datatype raw_date = Missing | Unparsable string | Parsed date

fun isParsed :: "raw_date \<Rightarrow> bool" where
  "isParsed (Parsed d) = True"
| "isParsed Missing = False"
| "isParsed (Unparsable s) = False"

record raw_post =
  raw_slug :: string
  raw_title :: string
  raw_description :: "string option"
  raw_publishDate :: raw_date
  raw_updatedDate :: "date option"
  raw_tags :: "string list"
  raw_draft :: bool
  raw_ogImage :: og_image

subsection \<open>The post loader\<close>

text \<open>
  Modelled from the spec: the validation of one document by the loader, which is missing
  from the sources. The front matter is normalised (no description becomes the empty
  string); a missing or unparsable publish date is a \<open>ContentValidationError\<close> naming
  the slug.
\<close>

definition normalise :: "raw_post \<Rightarrow> error + post" where
  "normalise r =
     (case raw_publishDate r of
        Parsed d \<Rightarrow>
          Inr \<lparr>data =
                 \<lparr>post_data.title = raw_title r,
                  description = (case raw_description r of None \<Rightarrow> [] | Some s \<Rightarrow> s),
                  publishDate = d,
                  updatedDate = raw_updatedDate r,
                  tags = raw_tags r,
                  draft = raw_draft r,
                  ogImage = raw_ogImage r\<rparr>,
               slug = raw_slug r\<rparr>
      | Missing \<Rightarrow> Inl (ContentValidationError (raw_slug r))
      | Unparsable s \<Rightarrow> Inl (ContentValidationError (raw_slug r)))"

text \<open>
  Modelled from the spec: the loader, missing from the sources, fails the entire load at
  an invalid document (fail fast, no partial result).
\<close>

fun validateAll :: "raw_post list \<Rightarrow> error + post list" where
  "validateAll [] = Inr []"
| "validateAll (r # rs) =
     (case normalise r of
        Inl e \<Rightarrow> Inl e
      | Inr p \<Rightarrow> (case validateAll rs of Inl e \<Rightarrow> Inl e | Inr ps \<Rightarrow> Inr (p # ps)))"

text \<open>
  Modelled from the spec: \<open>getAllPosts\<close> (the specification's \<open>loadPosts\<close>) is imported
  from \<open>@/data/post\<close>, which the sources do not contain. In a production context the
  drafts are left out; in a preview or development context all posts are returned.
\<close>

definition getAllPosts :: "bool \<Rightarrow> raw_post list \<Rightarrow> error + post list" where
  "getAllPosts production store =
     (case validateAll store of
        Inl e \<Rightarrow> Inl e
      | Inr ps \<Rightarrow> Inr (if production then filter (\<lambda>p. \<not> draft (data p)) ps else ps))"

subsection \<open>The sorter\<close>

text \<open>
  Modelled from the spec: the effective date of a post is its update date if present, else
  its publish date (the \<open>updatedDate ?? publishDate\<close> of the card endpoint).
\<close>

definition effectiveDate :: "post \<Rightarrow> date" where
  "effectiveDate p = (case updatedDate (data p) of Some d \<Rightarrow> d | None \<Rightarrow> publishDate (data p))"

text \<open>
  Modelled from the spec: the key of the sorter, missing from the sources. Keys are
  compared lexicographically: effective date descending, then slug ascending.
\<close>

definition sortKey :: "post \<Rightarrow> int \<times> string" where
  "sortKey p = (- effectiveDate p, slug p)"

text \<open>
  Modelled from the spec: \<open>sortMDByDate\<close> is imported from \<open>@/data/post\<close>, which the
  sources do not contain. The sorter orders by effective date, descending, and breaks ties
  by slug, ascending.
\<close>

definition sortMDByDate :: "post list \<Rightarrow> post list" where
  "sortMDByDate posts = sort_key sortKey posts"

text \<open>
  Modelled from the spec: the order the sorter is to establish between an earlier and a
  later position of its result.
\<close>

definition listedBefore :: "post \<Rightarrow> post \<Rightarrow> bool" where
  "listedBefore a b =
     (effectiveDate b < effectiveDate a \<or> (effectiveDate a = effectiveDate b \<and> slug a \<le> slug b))"

subsection \<open>The paginator\<close>

text \<open>
  Modelled from the spec: a page is an ordered slice of the sorted posts with its
  pagination metadata: the current index, the number of pages and the links to the
  adjacent pages (their numbers). The sources only receive pages from the framework.
\<close>

record page =
  items :: "post list"
  currentPage :: nat
  lastPage :: nat
  prevPage :: "nat option"
  nextPage :: "nat option"

text \<open>
  Modelled from the spec: the partition into contiguous chunks of \<open>pageSize\<close> that the
  paginator, missing from the sources, performs.
\<close>

function chunks :: "nat \<Rightarrow> 'a list \<Rightarrow> 'a list list" where
  "chunks n xs = (if n = 0 \<or> xs = [] then [] else take n xs # chunks n (drop n xs))"
  by pat_completeness auto
termination
  by (relation "measure (\<lambda>(n, xs). length xs)") auto

declare chunks.simps [simp del]

text \<open>
  Modelled from the spec: the pages of the paginator, missing from the sources, numbered
  from 1.
\<close>

definition mkPages :: "post list list \<Rightarrow> page list" where
  "mkPages cs =
     map (\<lambda>(i, c).
            \<lparr>items = c, currentPage = Suc i, lastPage = length cs,
             prevPage = (if i = 0 then None else Some i),
             nextPage = (if Suc i < length cs then Some (Suc (Suc i)) else None)\<rparr>)
       (enumerate 0 cs)"

text \<open>
  Modelled from the spec: \<open>paginate\<close> is the framework's function that \<open>getStaticPaths\<close>
  receives; the sources do not contain it. It partitions the sequence it is given into
  contiguous chunks of \<open>pageSize\<close> and reports a page size that is not positive.
\<close>

definition paginate :: "post list \<Rightarrow> int \<Rightarrow> error + page list" where
  "paginate posts pageSize =
     (if pageSize \<le> 0 then Inl (InvalidPageSize pageSize)
      else Inr (mkPages (chunks (nat pageSize) posts)))"

subsection \<open>\<open>getStaticPaths\<close> of the listing page\<close>

definition MAX_POSTS_PER_PAGE :: int where
  "MAX_POSTS_PER_PAGE = 10"

text \<open>
  \<open>getStaticPaths\<close> of the listing page (its lines 9--15). \<open>production\<close> is the build
  context and \<open>store\<close> the content store that \<open>getAllPosts\<close> reads.
\<close>

definition listing_getStaticPaths :: "bool \<Rightarrow> raw_post list \<Rightarrow> error + page list" where
  "listing_getStaticPaths production store =
     (case getAllPosts production store of
        Inl e \<Rightarrow> Inl e
      | Inr allPosts \<Rightarrow>
          (let allPostsByDate = sortMDByDate allPosts
           in paginate allPostsByDate MAX_POSTS_PER_PAGE))"

text \<open>A sample document of the content store for the closed instances below.\<close>

definition sampleRaw :: "string \<Rightarrow> bool \<Rightarrow> raw_date \<Rightarrow> raw_post" where
  "sampleRaw s d pd =
     \<lparr>raw_slug = s, raw_title = ''Hello World'', raw_description = None,
      raw_publishDate = pd, raw_updatedDate = None, raw_tags = [], raw_draft = d,
      raw_ogImage = OgUndefined\<rparr>"

section \<open>Properties of the social card endpoint\<close>

lemma textChild_empty: "textChild (escapeHTML []) = []"
  by (simp add: textChild_def escapeHTML_def trim_def)

lemma subtrees_textChild: "concat (map subtrees (textChild s)) = textChild s"
  by (simp add: textChild_def Let_def)

lemma filter_isElement_textChild: "filter (isElement t a) (textChild s) = []"
  by (simp add: textChild_def Let_def)

lemma dateElements_markup:
  "dateElements (markup cfg ttl d) =
     [Element ''p'' (Some ''text-2xl mb-6'') [] (textChild (escapeHTML d))]"
  by (simp add: dateElements_def markup_def subtrees_textChild filter_isElement_textChild)

lemma titleElements_markup:
  "titleElements (markup cfg ttl d) =
     [Element ''h1'' (Some ''text-7xl font-bold leading-snug text-white'') []
        (textChild (escapeHTML ttl))]"
  by (simp add: titleElements_def markup_def subtrees_textChild filter_isElement_textChild)

lemma getStaticPaths_unfold:
  "getStaticPaths posts now tz =
     map toPath (filter (\<lambda>p. \<not> truthy (ogImage (data p))) posts) @ [toPath (indexEntry now tz)]"
  by (simp add: getStaticPaths_def indexEntry_def)

lemma toPath_indexEntry:
  "toPath (indexEntry now tz) =
     \<lparr>params_slug = ''index'',
      props = \<lparr>pubDate = now, skipDate = True, title = ''LLMs, RAGs, Agents and Applied AI''\<rparr>\<rparr>"
  by (simp add: toPath_def indexEntry_def prefix_def)

lemma params_slug_toPath: "params_slug (toPath p) = slug p"
  by (simp add: toPath_def)

lemma enumerated_slugs:
  "map params_slug (getStaticPaths posts now tz) =
     map slug (filter (\<lambda>p. \<not> truthy (ogImage (data p))) posts) @ [''index'']"
  by (simp add: getStaticPaths_unfold toPath_indexEntry comp_def params_slug_toPath)

lemma requestCard_not_enumerated:
  "s \<notin> set (map params_slug paths) \<Longrightarrow> requestCard e paths s = Inl (NotFoundError s)"
proof -
  assume "s \<notin> set (map params_slug paths)"
  then have "find (\<lambda>sp. params_slug sp = s) paths = None"
    by (auto simp add: find_None_iff)
  then show ?thesis by (simp add: requestCard_def)
qed

subsection \<open>The date line\<close>

text \<open>
  C1, as the code has it: \<open>markup\<close> has the date paragraph unconditionally. When the date
  is skipped, the document handed to the layout library still contains the date paragraph,
  exactly once, and it has no text: the date line is rendered blank, for every title and
  every environment.
\<close>

theorem date_line_blank_when_skipped:
  "skipDate p \<Longrightarrow>
   dateElements (cardMarkup e p) = [Element ''p'' (Some ''text-2xl mb-6'') [] []]"
  by (simp add: cardMarkup_def postDate_def dateElements_markup textChild_empty)

text \<open>An instance: the card of ``Hello World'' with the date skipped.\<close>

theorem date_line_blank_when_skipped_witness:
  "skipDate \<lparr>pubDate = 0, skipDate = True, title = ''Hello World''\<rparr> \<and>
   dateElements (cardMarkup sampleEnv \<lparr>pubDate = 0, skipDate = True, title = ''Hello World''\<rparr>)
     = [Element ''p'' (Some ''text-2xl mb-6'') [] []]"
  using date_line_blank_when_skipped
          [of "\<lparr>pubDate = 0, skipDate = True, title = ''Hello World''\<rparr>" sampleEnv]
  by simp

text \<open>
  C1 as stated (no date element at all when the date is absent) fails: the card of
  ``Hello World'' with the date skipped has a date element.
\<close>

theorem date_line_not_omitted_counterexample:
  "dateElements (cardMarkup sampleEnv \<lparr>pubDate = 0, skipDate = True, title = ''Hello World''\<rparr>)
     \<noteq> []"
  by (simp add: cardMarkup_def dateElements_markup)

text \<open>
  C10: if no post's slug starts with \<open>/content\<close>, then every entry that \<open>getStaticPaths\<close>
  produces (every post and the synthetic index entry) has \<open>skipDate\<close> true, the date string
  of \<open>GET\<close> is empty for it, and its card has the date paragraph without text.
\<close>

theorem enumerated_cards_skip_date:
  assumes "\<forall>p \<in> set posts. \<not> prefix ''/content'' (slug p)"
    and "sp \<in> set (getStaticPaths posts now tz)"
  shows "skipDate (props sp) \<and> postDate e (props sp) = [] \<and>
         dateElements (cardMarkup e (props sp)) = [Element ''p'' (Some ''text-2xl mb-6'') [] []]"
proof -
  from assms(2) have "sp = toPath (indexEntry now tz) \<or> (\<exists>p \<in> set posts. sp = toPath p)"
    by (auto simp add: getStaticPaths_unfold)
  with assms(1) have skip: "skipDate (props sp)"
    by (auto simp add: toPath_indexEntry) (simp add: toPath_def)
  then show ?thesis
    by (simp add: cardMarkup_def postDate_def dateElements_markup textChild_empty)
qed

text \<open>An instance: the entry of a post with slug \<open>dspy\<close>.\<close>

theorem enumerated_cards_skip_date_witness:
  "\<not> prefix ''/content'' (slug (samplePost ''dspy'' 1718064000000 OgUndefined)) \<and>
   toPath (samplePost ''dspy'' 1718064000000 OgUndefined)
     \<in> set (getStaticPaths [samplePost ''dspy'' 1718064000000 OgUndefined] 0 0) \<and>
   skipDate (props (toPath (samplePost ''dspy'' 1718064000000 OgUndefined))) \<and>
   postDate sampleEnv (props (toPath (samplePost ''dspy'' 1718064000000 OgUndefined))) = [] \<and>
   dateElements
     (cardMarkup sampleEnv (props (toPath (samplePost ''dspy'' 1718064000000 OgUndefined))))
     = [Element ''p'' (Some ''text-2xl mb-6'') [] []]"
  using enumerated_cards_skip_date
          [of "[samplePost ''dspy'' 1718064000000 OgUndefined]"
              "toPath (samplePost ''dspy'' 1718064000000 OgUndefined)" 0 0 sampleEnv]
  by (simp add: samplePost_def getStaticPaths_unfold)

text \<open>The premise is needed: an entry whose slug starts with \<open>/content\<close> displays its date.\<close>

lemma content_slug_shows_date:
  "prefix ''/content'' (slug p) \<Longrightarrow>
   postDate e (props (toPath p)) = ''//'' @ getFormattedDate e (effectiveDate p)"
  by (simp add: toPath_def postDate_def effectiveDate_def)

subsection \<open>The enumeration\<close>

text \<open>
  C9: the enumeration of the card endpoint is the posts of the loader without those whose
  \<open>ogImage\<close> is set, each mapped to its entry, followed by exactly one synthetic entry:
  slug \<open>index\<close>, the fixed title, and no date (\<open>skipDate\<close> is true, so the date string of
  its card is empty).
\<close>

theorem enumeration_is_filtered_posts_plus_index:
  "getStaticPaths posts now tz =
     map toPath (filter (\<lambda>p. \<not> truthy (ogImage (data p))) posts) @
     [\<lparr>params_slug = ''index'',
       props = \<lparr>pubDate = now, skipDate = True,
                title = ''LLMs, RAGs, Agents and Applied AI''\<rparr>\<rparr>]
   \<and> postDate e (props (last (getStaticPaths posts now tz))) = []"
  by (simp add: getStaticPaths_unfold toPath_indexEntry postDate_def)

text \<open>
  C5: a post whose \<open>ogImage\<close> is set is not enumerated by the card endpoint, and a request
  for its card is answered not-found. Slugs are unique in the content store and \<open>index\<close>
  is the reserved identifier of the home page.
\<close>

theorem ogImage_posts_not_enumerated:
  assumes "p \<in> set posts" and "truthy (ogImage (data p))"
    and "distinct (map slug posts)" and "slug p \<noteq> ''index''"
  shows "slug p \<notin> set (map params_slug (getStaticPaths posts now tz)) \<and>
         requestCard e (getStaticPaths posts now tz) (slug p) = Inl (NotFoundError (slug p))"
proof -
  have "slug p \<notin> set (map slug (filter (\<lambda>q. \<not> truthy (ogImage (data q))) posts))"
  proof
    assume "slug p \<in> set (map slug (filter (\<lambda>q. \<not> truthy (ogImage (data q))) posts))"
    then obtain q where q: "q \<in> set posts" "\<not> truthy (ogImage (data q))" "slug q = slug p"
      by auto
    from assms(3) have "inj_on slug (set posts)" by (simp add: distinct_map)
    with q(1,3) assms(1) have "q = p" by (auto dest: inj_onD)
    with q(2) assms(2) show False by simp
  qed
  with assms(4) have absent: "slug p \<notin> set (map params_slug (getStaticPaths posts now tz))"
    by (simp add: enumerated_slugs)
  from requestCard_not_enumerated [OF absent] absent show ?thesis by simp
qed

text \<open>
  An instance: of the posts \<open>dspy\<close> (with an external image) and \<open>evals-pyramid\<close>
  (without), only the second is enumerated, and the card of \<open>dspy\<close> is not found.
\<close>

theorem ogImage_posts_not_enumerated_witness:
  "samplePost ''dspy'' 1718064000000 (OgString ''/cover.png'')
     \<in> set [samplePost ''dspy'' 1718064000000 (OgString ''/cover.png''),
             samplePost ''evals-pyramid'' 1733788800000 OgUndefined] \<and>
   truthy (ogImage (data (samplePost ''dspy'' 1718064000000 (OgString ''/cover.png'')))) \<and>
   distinct (map slug [samplePost ''dspy'' 1718064000000 (OgString ''/cover.png''),
                       samplePost ''evals-pyramid'' 1733788800000 OgUndefined]) \<and>
   slug (samplePost ''dspy'' 1718064000000 (OgString ''/cover.png'')) \<noteq> ''index'' \<and>
   map params_slug
     (getStaticPaths [samplePost ''dspy'' 1718064000000 (OgString ''/cover.png''),
                      samplePost ''evals-pyramid'' 1733788800000 OgUndefined] 0 0)
     = [''evals-pyramid'', ''index''] \<and>
   requestCard sampleEnv
     (getStaticPaths [samplePost ''dspy'' 1718064000000 (OgString ''/cover.png''),
                      samplePost ''evals-pyramid'' 1733788800000 OgUndefined] 0 0) ''dspy''
     = Inl (NotFoundError ''dspy'')"
  using ogImage_posts_not_enumerated
          [of "samplePost ''dspy'' 1718064000000 (OgString ''/cover.png'')"
              "[samplePost ''dspy'' 1718064000000 (OgString ''/cover.png''),
                samplePost ''evals-pyramid'' 1733788800000 OgUndefined]" 0 0 sampleEnv]
  by (simp add: samplePost_def enumerated_slugs)

subsection \<open>Generating a card\<close>

text \<open>
  \<open>GET\<close> does not read \<open>pubDate\<close> when the date is skipped: two cards with the same
  title and the date skipped are the same response, whatever their dates.
\<close>

lemma GET_ignores_skipped_date:
  "skipDate p \<Longrightarrow> skipDate q \<Longrightarrow> props.title p = props.title q \<Longrightarrow> GET e p = GET e q"
  by (simp add: GET_def cardMarkup_def postDate_def)

text \<open>
  The clock that \<open>getStaticPaths\<close> reads for the synthetic entry (and the time zone) does
  not reach the cards: the entry's date is skipped.
\<close>

lemma cards_independent_of_clock:
  "map (\<lambda>sp. (params_slug sp, GET e (props sp))) (getStaticPaths posts now tz) =
   map (\<lambda>sp. (params_slug sp, GET e (props sp))) (getStaticPaths posts now' tz')"
  by (simp add: getStaticPaths_unfold toPath_indexEntry GET_def cardMarkup_def postDate_def)

text \<open>
  The title region of a card is the heading, whose only text is the escaped and trimmed
  title; the card of the empty title with the date skipped has a heading without text and
  a date paragraph without text.
\<close>

lemma title_region:
  "titleElements (cardMarkup e p) =
     [Element ''h1'' (Some ''text-7xl font-bold leading-snug text-white'') []
        (textChild (escapeHTML (props.title p)))]"
  by (simp add: cardMarkup_def titleElements_markup)

lemma title_region_example:
  "titleElements
     (cardMarkup sampleEnv \<lparr>pubDate = 0, skipDate = True, title = '' R&D <3 ''\<rparr>) =
     [Element ''h1'' (Some ''text-7xl font-bold leading-snug text-white'') []
        [Text ''R&amp;D &lt;3'']]"
  by (simp add: title_region textChild_def escapeHTML_def escapeChar_def trim_def
        isWhiteSpace_def)

lemma empty_title_card:
  "titleElements (cardMarkup e \<lparr>pubDate = d, skipDate = True, title = []\<rparr>) =
     [Element ''h1'' (Some ''text-7xl font-bold leading-snug text-white'') [] []] \<and>
   dateElements (cardMarkup e \<lparr>pubDate = d, skipDate = True, title = []\<rparr>) =
     [Element ''p'' (Some ''text-2xl mb-6'') [] []]"
  by (simp add: cardMarkup_def postDate_def dateElements_markup titleElements_markup
        textChild_empty)

text \<open>
  \<open>GET\<close> returns the PNG response whenever the two libraries return for the card.
\<close>

lemma GET_returns_when_libraries_return:
  "satori e (cardMarkup e p) (ogOptions e) = Inr svg \<Longrightarrow> renderAsPng e svg = Inr png \<Longrightarrow>
   GET e p =
     Inr \<lparr>body = png,
          headers = [(''Cache-Control'', ''public, max-age=31536000, immutable''),
                     (''Content-Type'', ''image/png'')]\<rparr>"
  by (simp add: GET_def)

text \<open>\<open>GET\<close> fails only where one of the two libraries fails, with the library's error.\<close>

lemma GET_failure_from_library:
  "GET e p = Inl err \<Longrightarrow>
   satori e (cardMarkup e p) (ogOptions e) = Inl err \<or>
   (\<exists>svg. satori e (cardMarkup e p) (ogOptions e) = Inr svg \<and> renderAsPng e svg = Inl err)"
  by (auto simp add: GET_def split: sum.splits)

section \<open>Properties of the listing pipeline\<close>

subsection \<open>The paginator\<close>

lemma chunks_Nil: "chunks n [] = []"
  by (simp add: chunks.simps)

lemma chunks_step: "0 < n \<Longrightarrow> xs \<noteq> [] \<Longrightarrow> chunks n xs = take n xs # chunks n (drop n xs)"
  by (subst chunks.simps) simp

lemma ceil_shift: "0 < n \<Longrightarrow> 0 < m \<Longrightarrow> (m + n - 1) div n = Suc ((m - 1) div n)"
proof -
  assume "0 < n" "0 < m"
  then have "m + n - 1 = (m - 1) + n" by simp
  then have "(m + n - 1) div n = ((m - 1) + n) div n" by simp
  also have "\<dots> = Suc ((m - 1) div n)" using \<open>0 < n\<close> by simp
  finally show ?thesis .
qed

lemma length_chunks: "0 < n \<Longrightarrow> length (chunks n xs) = (length xs + n - 1) div n"
proof (induction n xs rule: chunks.induct)
  case (1 n xs)
  show ?case
  proof (cases "xs = []")
    case True
    with 1(2) show ?thesis by (simp add: chunks_Nil)
  next
    case False
    then have pos: "0 < length xs" by simp
    from 1 False have IH: "length (chunks n (drop n xs)) = (length xs - n + n - 1) div n"
      by simp
    have "(length xs - n + n - 1) div n = (length xs - 1) div n"
    proof (cases "n \<le> length xs")
      case True
      then show ?thesis by simp
    next
      case False
      with pos 1(2) have "length xs - n + n - 1 < n" "length xs - 1 < n" by simp_all
      then show ?thesis by simp
    qed
    with IH have "length (chunks n xs) = Suc ((length xs - 1) div n)"
      using False 1(2) by (simp add: chunks_step)
    with ceil_shift [OF 1(2) pos] show ?thesis by simp
  qed
qed

lemma concat_chunks: "0 < n \<Longrightarrow> concat (chunks n xs) = xs"
proof (induction n xs rule: chunks.induct)
  case (1 n xs)
  show ?case
  proof (cases "xs = []")
    case True
    then show ?thesis by (simp add: chunks_Nil)
  next
    case False
    with 1 show ?thesis by (simp add: chunks_step)
  qed
qed

lemma nth_chunks:
  "0 < n \<Longrightarrow> i < length (chunks n xs) \<Longrightarrow> chunks n xs ! i = take n (drop (i * n) xs)"
proof (induction n xs arbitrary: i rule: chunks.induct)
  case (1 n xs)
  show ?case
  proof (cases "xs = []")
    case True
    with 1(3) show ?thesis by (simp add: chunks_Nil)
  next
    case False
    note step = chunks_step [OF 1(2) False]
    show ?thesis
    proof (cases i)
      case 0
      with step show ?thesis by simp
    next
      case (Suc j)
      with 1(3) step have "j < length (chunks n (drop n xs))" by simp
      with 1(1) [of j] False 1(2)
      have "chunks n (drop n xs) ! j = take n (drop (j * n) (drop n xs))" by simp
      with Suc step show ?thesis by (simp add: add.commute)
    qed
  qed
qed

lemma ceil_div:
  assumes "0 < n"
  shows "(m + n - 1) div n = nat \<lceil>real m / real n\<rceil>"
proof -
  define k where "k = (m + n - 1) div n"
  have lo: "k * n \<le> m + n - 1"
    unfolding k_def by simp
  have hi: "m + n - 1 < n + k * n"
    unfolding k_def using assms by (rule dividend_less_div_times)
  from hi assms have up: "m \<le> k * n" by simp
  from lo assms have "k * n < m + n" by simp
  then have "int (k * n) < int (m + n)" by (simp only: of_nat_less_iff)
  then have "real_of_int (int (k * n)) < real_of_int (int (m + n))" by (simp only: of_int_less_iff)
  then have low: "(real k - 1) * real n < real m" by (simp add: algebra_simps)
  from up have "real m \<le> real (k * n)" by (simp only: of_nat_le_iff)
  then have upr: "real m \<le> real k * real n" by simp
  have "\<lceil>real m / real n\<rceil> = int k"
  proof (rule ceiling_unique)
    from low assms show "of_int (int k) - 1 < real m / real n"
      by (simp add: pos_less_divide_eq)
    from upr assms show "real m / real n \<le> of_int (int k)"
      by (simp add: pos_divide_le_eq)
  qed
  then show ?thesis by (simp add: k_def)
qed

lemma length_mkPages: "length (mkPages cs) = length cs"
  by (simp add: mkPages_def)

lemma nth_mkPages:
  "i < length cs \<Longrightarrow>
   mkPages cs ! i =
     \<lparr>items = cs ! i, currentPage = Suc i, lastPage = length cs,
      prevPage = (if i = 0 then None else Some i),
      nextPage = (if Suc i < length cs then Some (Suc (Suc i)) else None)\<rparr>"
  by (simp add: mkPages_def nth_enumerate_eq)

lemma items_mkPages: "map items (mkPages cs) = cs"
  by (rule nth_equalityI) (simp_all add: length_mkPages nth_mkPages)

text \<open>The sizes of the slices: all pages but the last are full.\<close>

lemma slice_full:
  assumes "0 < n" and "Suc i < (length xs + n - 1) div n"
  shows "length (take n (drop (i * n) xs)) = n"
proof -
  from assms have pos: "0 < length xs" by (cases "length xs = 0") auto
  from assms ceil_shift [OF assms(1) pos] have "Suc i \<le> (length xs - 1) div n" by simp
  then have "Suc i * n \<le> ((length xs - 1) div n) * n" by (rule mult_le_mono1)
  also have "\<dots> \<le> length xs - 1" by simp
  finally have "Suc i * n < length xs" using pos by linarith
  then show ?thesis by simp
qed

lemma slice_last:
  assumes "0 < n" and "Suc i = (length xs + n - 1) div n"
  shows "length (take n (drop (i * n) xs)) =
         (if length xs mod n = 0 then n else length xs mod n)"
proof -
  from assms have pos: "0 < length xs" by (cases "length xs = 0") auto
  from assms ceil_shift [OF assms(1) pos] have i: "i = (length xs - 1) div n" by simp
  define r where "r = (length xs - 1) mod n"
  have r: "r < n" using assms(1) by (simp add: r_def)
  have "length xs - 1 = i * n + r" by (simp add: i r_def)
  with pos have len: "length xs = i * n + Suc r" by linarith
  then have sz: "length (take n (drop (i * n) xs)) = Suc r" using r by simp
  from len have "length xs mod n = Suc r mod n" by simp
  with r have "length xs mod n = (if Suc r = n then 0 else Suc r)" by auto
  with sz r show ?thesis by auto
qed

text \<open>
  C3: for every page size greater than 0 and every sequence of \<open>n\<close> posts, \<open>paginate\<close>
  returns exactly \<open>ceil(n / pageSize)\<close> pages; page \<open>N\<close> (counted from 1) holds the posts
  at offsets \<open>(N - 1) * pageSize\<close> to \<open>N * pageSize - 1\<close> of the sequence it is given (the
  sorted one, in \<open>getStaticPaths\<close>); every page but the last has \<open>pageSize\<close> posts, and
  the last has \<open>n mod pageSize\<close>, or \<open>pageSize\<close> when that is 0.
\<close>

theorem paginate_pages:
  assumes "0 < pageSize"
  shows "\<exists>pages. paginate posts pageSize = Inr pages \<and>
           length pages = nat \<lceil>real (length posts) / real_of_int pageSize\<rceil> \<and>
           (\<forall>N. 1 \<le> N \<and> N \<le> length pages \<longrightarrow>
              currentPage (pages ! (N - 1)) = N \<and>
              items (pages ! (N - 1)) =
                take (nat pageSize) (drop ((N - 1) * nat pageSize) posts) \<and>
              length (items (pages ! (N - 1))) =
                (if N < length pages then nat pageSize
                 else if length posts mod nat pageSize = 0 then nat pageSize
                 else length posts mod nat pageSize))"
proof -
  define n where "n = nat pageSize"
  define pages where "pages = mkPages (chunks n posts)"
  from assms have n: "0 < n" by (simp add: n_def)
  from assms have run: "paginate posts pageSize = Inr pages"
    by (simp add: paginate_def pages_def n_def)
  have len: "length pages = (length posts + n - 1) div n"
    by (simp add: pages_def length_mkPages length_chunks [OF n])
  from assms have "real_of_int pageSize = real n" by (simp add: n_def)
  with len ceil_div [OF n, of "length posts"]
  have count: "length pages = nat \<lceil>real (length posts) / real_of_int pageSize\<rceil>" by simp
  have each: "currentPage (pages ! (N - 1)) = N \<and>
              items (pages ! (N - 1)) = take n (drop ((N - 1) * n) posts) \<and>
              length (items (pages ! (N - 1))) =
                (if N < length pages then n
                 else if length posts mod n = 0 then n else length posts mod n)"
    if N: "1 \<le> N \<and> N \<le> length pages" for N
  proof -
    from N obtain i where i: "N = Suc i" by (cases N) auto
    with N have lt: "i < length (chunks n posts)" by (simp add: pages_def length_mkPages)
    have it: "items (pages ! i) = take n (drop (i * n) posts)"
      by (simp add: pages_def nth_mkPages [OF lt] nth_chunks [OF n lt])
    have cur: "currentPage (pages ! i) = Suc i"
      by (simp add: pages_def nth_mkPages [OF lt])
    have sz: "length (take n (drop (i * n) posts)) =
                (if Suc i < length pages then n
                 else if length posts mod n = 0 then n else length posts mod n)"
    proof (cases "Suc i < length pages")
      case True
      with len slice_full [OF n, of i posts] show ?thesis by simp
    next
      case False
      with N i have "Suc i = length pages" by simp
      with len slice_last [OF n, of i posts] show ?thesis by simp
    qed
    from it cur sz i show ?thesis by simp
  qed
  from run count each show ?thesis unfolding n_def by blast
qed

text \<open>An instance: three posts in pages of two are a full page and a page of one.\<close>

theorem paginate_pages_witness:
  "(0::int) < 2 \<and>
   paginate [samplePost ''dspy'' 1718064000000 OgUndefined,
             samplePost ''alpha'' 1704067200000 OgUndefined,
             samplePost ''beta'' 1704067200000 OgUndefined] 2
     = Inr [\<lparr>items = [samplePost ''dspy'' 1718064000000 OgUndefined,
                      samplePost ''alpha'' 1704067200000 OgUndefined],
             currentPage = 1, lastPage = 2, prevPage = None, nextPage = Some 2\<rparr>,
            \<lparr>items = [samplePost ''beta'' 1704067200000 OgUndefined],
             currentPage = 2, lastPage = 2, prevPage = Some 1, nextPage = None\<rparr>] \<and>
   nat \<lceil>real (length [samplePost ''dspy'' 1718064000000 OgUndefined,
                        samplePost ''alpha'' 1704067200000 OgUndefined,
                        samplePost ''beta'' 1704067200000 OgUndefined]) / real_of_int 2\<rceil> = 2"
  using paginate_pages
          [of 2 "[samplePost ''dspy'' 1718064000000 OgUndefined,
                  samplePost ''alpha'' 1704067200000 OgUndefined,
                  samplePost ''beta'' 1704067200000 OgUndefined]"]
  by (simp add: paginate_def mkPages_def chunks_step chunks_Nil)

subsection \<open>The sorter\<close>

lemma listedBefore_sortKey: "listedBefore a b \<longleftrightarrow> sortKey a \<le> sortKey b"
  by (auto simp add: listedBefore_def sortKey_def)

lemma sorted_wrt_sortMDByDate: "sorted_wrt listedBefore (sortMDByDate posts)"
proof -
  have "sorted (map sortKey (sort_key sortKey posts))" by (rule sorted_sort_key)
  then have "sorted_wrt (\<lambda>a b. sortKey a \<le> sortKey b) (sort_key sortKey posts)"
    by (simp add: sorted_map)
  then show ?thesis
    by (simp add: sortMDByDate_def listedBefore_sortKey [abs_def])
qed

lemma set_sortMDByDate: "set (sortMDByDate posts) = set posts"
  by (simp add: sortMDByDate_def)

lemma sortMDByDate_unique:
  assumes "distinct (map slug posts)" and "mset posts' = mset posts"
  shows "sortMDByDate posts' = sortMDByDate posts"
proof -
  from assms(2) have sets: "set posts' = set posts" by (rule mset_eq_setD)
  from assms(1) have "inj_on slug (set posts)" by (simp add: distinct_map)
  then have "inj_on sortKey (set posts)"
    by (auto simp add: inj_on_def sortKey_def)
  with sets have inj: "inj_on sortKey (set posts')" by simp
  have "sort_key sortKey posts' = sort_key sortKey posts"
  proof (rule sort_key_inj_key_eq [OF _ inj])
    from assms(2) show "mset posts' = mset (sort_key sortKey posts)" by simp
    show "sorted (map sortKey (sort_key sortKey posts))" by (rule sorted_sort_key)
  qed
  then show ?thesis by (simp add: sortMDByDate_def)
qed

text \<open>
  C4: the sorter lists the posts by effective date (the update date when present, else the
  publish date), descending, and posts of equal effective date by slug, ascending; the
  result is a permutation of the input and, slugs being unique, the same for every
  arrangement of the same posts: the order is reproducible.
\<close>

theorem sortMDByDate_deterministic_order:
  "sorted_wrt listedBefore (sortMDByDate posts) \<and>
   mset (sortMDByDate posts) = mset posts \<and>
   (distinct (map slug posts) \<and> mset posts' = mset posts \<longrightarrow>
      sortMDByDate posts' = sortMDByDate posts)"
  using sorted_wrt_sortMDByDate [of posts] sortMDByDate_unique [of posts posts']
  by (simp add: sortMDByDate_def)

text \<open>
  An instance: \<open>alpha\<close> and \<open>beta\<close> have the same effective date, \<open>dspy\<close> a later one;
  from either arrangement the result is \<open>dspy\<close>, \<open>alpha\<close>, \<open>beta\<close>.
\<close>

theorem sortMDByDate_deterministic_order_witness:
  "distinct (map slug [samplePost ''beta'' 1704067200000 OgUndefined,
                       samplePost ''alpha'' 1704067200000 OgUndefined,
                       samplePost ''dspy'' 1718064000000 OgUndefined]) \<and>
   mset [samplePost ''alpha'' 1704067200000 OgUndefined,
         samplePost ''dspy'' 1718064000000 OgUndefined,
         samplePost ''beta'' 1704067200000 OgUndefined]
     = mset [samplePost ''beta'' 1704067200000 OgUndefined,
             samplePost ''alpha'' 1704067200000 OgUndefined,
             samplePost ''dspy'' 1718064000000 OgUndefined] \<and>
   sortMDByDate [samplePost ''alpha'' 1704067200000 OgUndefined,
                 samplePost ''dspy'' 1718064000000 OgUndefined,
                 samplePost ''beta'' 1704067200000 OgUndefined]
     = sortMDByDate [samplePost ''beta'' 1704067200000 OgUndefined,
                     samplePost ''alpha'' 1704067200000 OgUndefined,
                     samplePost ''dspy'' 1718064000000 OgUndefined] \<and>
   sortMDByDate [samplePost ''beta'' 1704067200000 OgUndefined,
                 samplePost ''alpha'' 1704067200000 OgUndefined,
                 samplePost ''dspy'' 1718064000000 OgUndefined]
     = [samplePost ''dspy'' 1718064000000 OgUndefined,
        samplePost ''alpha'' 1704067200000 OgUndefined,
        samplePost ''beta'' 1704067200000 OgUndefined]"
  using sortMDByDate_deterministic_order
          [of "[samplePost ''beta'' 1704067200000 OgUndefined,
                samplePost ''alpha'' 1704067200000 OgUndefined,
                samplePost ''dspy'' 1718064000000 OgUndefined]"
              "[samplePost ''alpha'' 1704067200000 OgUndefined,
                samplePost ''dspy'' 1718064000000 OgUndefined,
                samplePost ''beta'' 1704067200000 OgUndefined]"]
  by (simp add: samplePost_def sortMDByDate_def sortKey_def effectiveDate_def)

subsection \<open>The loader and the listing\<close>

lemma normalise_Inr:
  "normalise r = Inr q \<Longrightarrow> draft (data q) = raw_draft r \<and> slug q = raw_slug r"
  by (auto simp add: normalise_def split: raw_date.splits)

lemma normalise_invalid:
  "\<not> isParsed (raw_publishDate r) \<Longrightarrow> normalise r = Inl (ContentValidationError (raw_slug r))"
  by (cases "raw_publishDate r") (simp_all add: normalise_def)

lemma normalise_Inl:
  "normalise r = Inl e \<Longrightarrow> \<not> isParsed (raw_publishDate r) \<and> e = ContentValidationError (raw_slug r)"
  by (cases "raw_publishDate r") (simp_all add: normalise_def)

lemma validateAll_Inr_set:
  "validateAll store = Inr vs \<Longrightarrow> v \<in> set vs \<Longrightarrow> \<exists>r \<in> set store. normalise r = Inr v"
proof (induction store arbitrary: vs)
  case Nil
  then show ?case by simp
next
  case (Cons r rs)
  then show ?case
    by (auto split: sum.splits)
qed

lemma validateAll_invalid:
  "r \<in> set store \<Longrightarrow> \<not> isParsed (raw_publishDate r) \<Longrightarrow>
   \<exists>r' \<in> set store. \<not> isParsed (raw_publishDate r') \<and>
      validateAll store = Inl (ContentValidationError (raw_slug r'))"
proof (induction store)
  case Nil
  then show ?case by simp
next
  case (Cons x xs)
  show ?case
  proof (cases "normalise x")
    case (Inl e)
    with normalise_Inl [OF Inl] show ?thesis by auto
  next
    case (Inr p)
    then have "isParsed (raw_publishDate x)"
      using normalise_invalid [of x] by auto
    with Cons.prems have "r \<in> set xs" by auto
    from Cons.IH [OF this Cons.prems(2)] Inr show ?thesis by auto
  qed
qed

text \<open>
  C8: if the publish date of a post is missing or unparsable, the load fails with a
  \<open>ContentValidationError\<close> that names the slug of an offending post (of that post, when
  it is the only one), in every build context, and the listing fails with it: no pages are
  produced.
\<close>

theorem invalid_publishDate_fails_load:
  assumes "r \<in> set store" and "\<not> isParsed (raw_publishDate r)"
  shows "\<exists>r' \<in> set store.
           \<not> isParsed (raw_publishDate r') \<and>
           getAllPosts production store = Inl (ContentValidationError (raw_slug r')) \<and>
           listing_getStaticPaths production store = Inl (ContentValidationError (raw_slug r')) \<and>
           ((\<forall>x \<in> set store. x \<noteq> r \<longrightarrow> isParsed (raw_publishDate x)) \<longrightarrow> r' = r)"
proof -
  from validateAll_invalid [OF assms] obtain r' where
    r': "r' \<in> set store" "\<not> isParsed (raw_publishDate r')"
        "validateAll store = Inl (ContentValidationError (raw_slug r'))"
    by blast
  from r'(3) have "getAllPosts production store = Inl (ContentValidationError (raw_slug r'))"
    by (simp add: getAllPosts_def)
  moreover from this
  have "listing_getStaticPaths production store = Inl (ContentValidationError (raw_slug r'))"
    by (simp add: listing_getStaticPaths_def)
  moreover from r'(1,2)
  have "(\<forall>x \<in> set store. x \<noteq> r \<longrightarrow> isParsed (raw_publishDate x)) \<longrightarrow> r' = r"
    by blast
  ultimately show ?thesis using r'(1,2) by blast
qed

text \<open>An instance: the publish date of \<open>evals-pyramid\<close> is the string \<open>soon\<close>.\<close>

theorem invalid_publishDate_fails_load_witness:
  "sampleRaw ''evals-pyramid'' False (Unparsable ''soon'')
     \<in> set [sampleRaw ''dspy'' False (Parsed 1718064000000),
             sampleRaw ''evals-pyramid'' False (Unparsable ''soon'')] \<and>
   \<not> isParsed (raw_publishDate (sampleRaw ''evals-pyramid'' False (Unparsable ''soon''))) \<and>
   getAllPosts True [sampleRaw ''dspy'' False (Parsed 1718064000000),
                     sampleRaw ''evals-pyramid'' False (Unparsable ''soon'')]
     = Inl (ContentValidationError ''evals-pyramid'') \<and>
   listing_getStaticPaths True [sampleRaw ''dspy'' False (Parsed 1718064000000),
                      sampleRaw ''evals-pyramid'' False (Unparsable ''soon'')]
     = Inl (ContentValidationError ''evals-pyramid'')"
  using invalid_publishDate_fails_load
          [of "sampleRaw ''evals-pyramid'' False (Unparsable ''soon'')"
              "[sampleRaw ''dspy'' False (Parsed 1718064000000),
                sampleRaw ''evals-pyramid'' False (Unparsable ''soon'')]" True]
  by (simp add: sampleRaw_def getAllPosts_def listing_getStaticPaths_def normalise_def)

lemma listing_getStaticPaths_Inr:
  assumes "listing_getStaticPaths production store = Inr pages"
  shows "\<exists>vs. validateAll store = Inr vs \<and>
           pages = mkPages (chunks 10
                     (sortMDByDate (if production then filter (\<lambda>p. \<not> draft (data p)) vs else vs)))"
  using assms
  by (auto simp add: listing_getStaticPaths_def getAllPosts_def paginate_def MAX_POSTS_PER_PAGE_def
           split: sum.splits)

lemma listed_posts:
  assumes "pages = mkPages (chunks 10 xs)" and "pg \<in> set pages" and "q \<in> set (items pg)"
  shows "q \<in> set xs"
proof -
  from assms(2,3) have "q \<in> set (concat (map items pages))" by auto
  with assms(1) show ?thesis by (simp add: items_mkPages concat_chunks)
qed

text \<open>
  C2: in a production context no page of the listing holds a draft: every listed post has
  its draft flag false, and a draft \<open>P\<close> of the content store is on no page (nor is its
  slug, slugs being unique).
\<close>

theorem drafts_absent_from_production_listing:
  assumes "listing_getStaticPaths True store = Inr pages"
    and "P \<in> set store" and "raw_draft P"
    and "pg \<in> set pages" and "q \<in> set (items pg)"
  shows "\<not> draft (data q) \<and> normalise P \<noteq> Inr q \<and>
         (distinct (map raw_slug store) \<longrightarrow> slug q \<noteq> raw_slug P)"
proof -
  from listing_getStaticPaths_Inr [OF assms(1)] obtain vs where
    vs: "validateAll store = Inr vs"
        "pages = mkPages (chunks 10 (sortMDByDate (filter (\<lambda>p. \<not> draft (data p)) vs)))"
    by auto
  from listed_posts [OF vs(2) assms(4,5)]
  have q: "q \<in> set vs" "\<not> draft (data q)" by (simp_all add: set_sortMDByDate)
  from validateAll_Inr_set [OF vs(1) q(1)] obtain r where
    r: "r \<in> set store" "normalise r = Inr q" by blast
  from normalise_Inr [OF r(2)] q(2) have rq: "\<not> raw_draft r" "slug q = raw_slug r" by simp_all
  from q(2) assms(3) normalise_Inr [of P q] have np: "normalise P \<noteq> Inr q" by auto
  have "slug q \<noteq> raw_slug P" if d: "distinct (map raw_slug store)"
  proof
    assume "slug q = raw_slug P"
    with rq(2) have "raw_slug r = raw_slug P" by simp
    moreover from d have "inj_on raw_slug (set store)" by (simp add: distinct_map)
    ultimately have "r = P" using r(1) assms(2) by (auto dest: inj_onD)
    with rq(1) assms(3) show False by simp
  qed
  with q(2) np show ?thesis by blast
qed

text \<open>
  An instance: of the draft \<open>a\<close> and the post \<open>b\<close>, the listing has one page, which
  holds only \<open>b\<close>.
\<close>

theorem drafts_absent_from_production_listing_witness:
  "listing_getStaticPaths True [sampleRaw ''a'' True (Parsed 1704067200000),
                      sampleRaw ''b'' False (Parsed 1704067200000)]
     = Inr [\<lparr>items = [samplePost ''b'' 1704067200000 OgUndefined],
             currentPage = 1, lastPage = 1, prevPage = None, nextPage = None\<rparr>] \<and>
   sampleRaw ''a'' True (Parsed 1704067200000)
     \<in> set [sampleRaw ''a'' True (Parsed 1704067200000),
             sampleRaw ''b'' False (Parsed 1704067200000)] \<and>
   raw_draft (sampleRaw ''a'' True (Parsed 1704067200000)) \<and>
   samplePost ''b'' 1704067200000 OgUndefined
     \<in> set (items \<lparr>items = [samplePost ''b'' 1704067200000 OgUndefined],
                    currentPage = 1, lastPage = 1, prevPage = None, nextPage = None\<rparr>) \<and>
   \<not> draft (data (samplePost ''b'' 1704067200000 OgUndefined)) \<and>
   normalise (sampleRaw ''a'' True (Parsed 1704067200000))
     \<noteq> Inr (samplePost ''b'' 1704067200000 OgUndefined) \<and>
   slug (samplePost ''b'' 1704067200000 OgUndefined)
     \<noteq> raw_slug (sampleRaw ''a'' True (Parsed 1704067200000))"
  using drafts_absent_from_production_listing
          [of "[sampleRaw ''a'' True (Parsed 1704067200000),
                sampleRaw ''b'' False (Parsed 1704067200000)]"
              "[\<lparr>items = [samplePost ''b'' 1704067200000 OgUndefined],
                 currentPage = 1, lastPage = 1, prevPage = None, nextPage = None\<rparr>]"
              "sampleRaw ''a'' True (Parsed 1704067200000)"
              "\<lparr>items = [samplePost ''b'' 1704067200000 OgUndefined],
                currentPage = 1, lastPage = 1, prevPage = None, nextPage = None\<rparr>"
              "samplePost ''b'' 1704067200000 OgUndefined"]
  by (simp add: sampleRaw_def samplePost_def listing_getStaticPaths_def getAllPosts_def normalise_def
        sortMDByDate_def paginate_def MAX_POSTS_PER_PAGE_def mkPages_def chunks_step chunks_Nil)

end
